theory Spec2Isabelle
  imports Main
begin

section \<open>Library management: the tables and the operations of main.py\<close>

text \<open>
  The program keeps three pandas DataFrames, \<^verbatim>\<open>books\<close>, \<^verbatim>\<open>users\<close> (the loans) and
  \<^verbatim>\<open>logs\<close>. A DataFrame is modelled as the list of its rows, in index order, and a row as a
  record with one field per column. Column names are kept; where two tables share a column
  name the later record prefixes it (\<open>LoanBookID\<close>, \<open>LogUserID\<close>, \<open>LogBookID\<close>).

  Copy counts are Python integers (\<^verbatim>\<open>copies = int(...)\<close>), hence \<open>int\<close>. A timestamp is the
  number of nanoseconds since the epoch (the resolution of a pandas Timestamp); the missing
  value \<^verbatim>\<open>pd.NaT\<close> in the column \<^verbatim>\<open>ReturnDate\<close> is \<open>None\<close>.
\<close>

type_synonym timestamp = int

record book =
  BookID :: string
  Title :: string
  Author :: string
  TotalCopies :: int
  AvailableCopies :: int

record loan =
  UserID :: string
  Name :: string
  LoanBookID :: string
  IssueDate :: timestamp
  ReturnDate :: "timestamp option"

record log_entry =
  LogUserID :: string
  LogBookID :: string
  Action :: string
  Date :: timestamp

text \<open>
  What an operation prints, one constructor per message:
  \<open>DuplicateID\<close> "Book ID already exists.", \<open>InvalidInput\<close> "Invalid number of copies.",
  \<open>BookAdded\<close> "Book added successfully.", \<open>NotFound\<close> "Book not found.",
  \<open>NoAvailability\<close> "No copies available.", \<open>BookIssued\<close> "Book issued.",
  \<open>NoActiveLoan\<close> "No active issue found.", and \<open>BookReturned fine\<close> "Book returned."
  followed, when \<open>fine > 0\<close>, by "Late return. Fine: ..." with the amount.
  \<open>IndexError\<close> is the exception \<^verbatim>\<open>.iloc[0]\<close> raises on an empty selection.
\<close>

datatype outcome =
    DuplicateID
  | InvalidInput
  | BookAdded
  | NotFound
  | NoAvailability
  | BookIssued
  | NoActiveLoan
  | BookReturned int
  | IndexError

definition FINE_PER_DAY :: int where
  "FINE_PER_DAY = 5"

definition NS_PER_DAY :: int where
  "NS_PER_DAY = 86400000000000"

text \<open>\<^verbatim>\<open>Timedelta.days\<close>: the days component of a difference of two timestamps. As with
  Python's \<^verbatim>\<open>timedelta\<close>, it is the floor of the difference divided by one day.\<close>

definition timedelta_days :: "int \<Rightarrow> int" where
  "timedelta_days delta = delta div NS_PER_DAY"

text \<open>\<^verbatim>\<open>.iloc[0]\<close> on a selection: its first element, or IndexError (here \<open>None\<close>).\<close>

definition iloc0 :: "'a list \<Rightarrow> 'a option" where
  "iloc0 xs = (case xs of [] \<Rightarrow> None | x # _ \<Rightarrow> Some x)"

subsection \<open>add_book\<close>

text \<open>
  The answers typed at the prompts are the arguments, after \<^verbatim>\<open>.strip()\<close>. \<open>copies\<close> is the
  result of \<^verbatim>\<open>int(input(...).strip())\<close>: \<open>None\<close> when \<^verbatim>\<open>int\<close> raises ValueError.
  The duplicate test comes first, before title, author and copies are read.
\<close>

definition add_book ::
  "book list \<Rightarrow> string \<Rightarrow> string \<Rightarrow> string \<Rightarrow> int option \<Rightarrow> outcome \<times> book list" where
  "add_book books book_id title author copies =
     (if book_id \<in> set (map BookID books) then (DuplicateID, books)
      else case copies of
             None \<Rightarrow> (InvalidInput, books)
           | Some c \<Rightarrow>
               if c < 1 then (InvalidInput, books)
               else (BookAdded,
                     books @ [\<lparr>BookID = book_id, Title = title, Author = author,
                               TotalCopies = c, AvailableCopies = c\<rparr>]))"

subsection \<open>issue_book\<close>

text \<open>\<open>today\<close> is the reading of \<^verbatim>\<open>datetime.today()\<close>.
  \<^verbatim>\<open>books.loc[books["BookID"] == book_id, "AvailableCopies"] -= 1\<close> updates every row whose
  BookID matches.\<close>

definition issue_book ::
  "timestamp \<Rightarrow> book list \<Rightarrow> loan list \<Rightarrow> log_entry list \<Rightarrow> string \<Rightarrow> string \<Rightarrow> string
     \<Rightarrow> outcome \<times> book list \<times> loan list \<times> log_entry list" where
  "issue_book today books users logs user_id name book_id =
     (if book_id \<notin> set (map BookID books) then (NotFound, books, users, logs)
      else case iloc0 (filter (\<lambda>b. BookID b = book_id) books) of
             None \<Rightarrow> (IndexError, books, users, logs)
           | Some book_row \<Rightarrow>
               if AvailableCopies book_row \<le> 0 then (NoAvailability, books, users, logs)
               else
                 let issue_date = today;
                     users' = users @ [\<lparr>UserID = user_id, Name = name, LoanBookID = book_id,
                                        IssueDate = issue_date, ReturnDate = None\<rparr>];
                     books' = map (\<lambda>b. if BookID b = book_id
                                         then b\<lparr>AvailableCopies := AvailableCopies b - 1\<rparr>
                                         else b) books;
                     logs' = logs @ [\<lparr>LogUserID = user_id, LogBookID = book_id,
                                      Action = ''Issued'', Date = issue_date\<rparr>]
                 in (BookIssued, books', users', logs'))"

subsection \<open>return_book\<close>

text \<open>\<open>mask\<close> is the boolean Series of the source, as a predicate on rows.
  \<^verbatim>\<open>users.loc[mask, "ReturnDate"] = today\<close> assigns to every row the mask selects.\<close>

definition return_book ::
  "timestamp \<Rightarrow> book list \<Rightarrow> loan list \<Rightarrow> log_entry list \<Rightarrow> string \<Rightarrow> string
     \<Rightarrow> outcome \<times> book list \<times> loan list \<times> log_entry list" where
  "return_book today books users logs user_id book_id =
     (let mask = (\<lambda>u. UserID u = user_id \<and> LoanBookID u = book_id \<and> ReturnDate u = None)
      in if \<not> list_ex mask users then (NoActiveLoan, books, users, logs)
         else case iloc0 (map IssueDate (filter mask users)) of
                None \<Rightarrow> (IndexError, books, users, logs)
              | Some issue_date \<Rightarrow>
                  let return_days = timedelta_days (today - issue_date);
                      fine = max 0 ((return_days - 14) * FINE_PER_DAY);
                      users' = map (\<lambda>u. if mask u then u\<lparr>ReturnDate := Some today\<rparr> else u) users;
                      books' = map (\<lambda>b. if BookID b = book_id
                                          then b\<lparr>AvailableCopies := AvailableCopies b + 1\<rparr>
                                          else b) books;
                      logs' = logs @ [\<lparr>LogUserID = user_id, LogBookID = book_id,
                                       Action = ''Returned'', Date = today\<rparr>]
                  in (BookReturned fine, books', users', logs'))"

subsection \<open>visualize_top_books\<close>

text \<open>
  \<^verbatim>\<open>Series.value_counts()\<close>: one entry per distinct value, with the number of rows holding
  it, in descending order of that number. Distinct values are taken in order of first
  occurrence and the sort is stable; the order among equal counts is not part of any
  statement below. \<^verbatim>\<open>nlargest(n)\<close> keeps the \<open>n\<close> entries with the largest counts, the
  first ones on ties.
\<close>

definition value_counts :: "string list \<Rightarrow> (string \<times> nat) list" where
  "value_counts xs =
     sort_key (\<lambda>p. - int (snd p)) (map (\<lambda>x. (x, count_list xs x)) (rev (remdups (rev xs))))"

definition nlargest :: "nat \<Rightarrow> (string \<times> nat) list \<Rightarrow> (string \<times> nat) list" where
  "nlargest n s = take n (sort_key (\<lambda>p. - int (snd p)) s)"

text \<open>
  \<^verbatim>\<open>book_titles = books.set_index("BookID")["Title"]\<close> is the Series of titles indexed by
  BookID, an association list here. \<^verbatim>\<open>book_titles.get(bid, default)\<close> gives the default
  when no index entry equals \<open>bid\<close>, the title when one does, and the sub-Series of all the
  titles under that key when several do.
\<close>

datatype label = Scalar string | Series "string list"

definition series_get :: "(string \<times> string) list \<Rightarrow> string \<Rightarrow> string \<Rightarrow> label" where
  "series_get s key dflt =
     (case map snd (filter (\<lambda>p. fst p = key) s) of
        [] \<Rightarrow> Scalar dflt
      | [v] \<Rightarrow> Scalar v
      | vs \<Rightarrow> Series vs)"

text \<open>The result is what is handed to \<^verbatim>\<open>plt.bar\<close>: the labels and the counts, with the index
  of \<open>top_books\<close> (the BookIDs) beside them. \<open>None\<close> is the early return after
  "No borrowing records yet.".\<close>

definition visualize_top_books ::
  "loan list \<Rightarrow> book list \<Rightarrow> (string list \<times> label list \<times> nat list) option" where
  "visualize_top_books users books =
     (if users = [] then None
      else
        let top_books = nlargest 5 (value_counts (map LoanBookID users));
            book_titles = map (\<lambda>b. (BookID b, Title b)) books;
            labels = map (\<lambda>bid. series_get book_titles bid bid) (map fst top_books)
        in Some (map fst top_books, labels, map snd top_books))"

subsection \<open>The menu loop of main\<close>

text \<open>
  One value of \<open>menu_input\<close> is what the user types in one round of the loop: the choice
  ("1" to "7", anything else is \<open>ChoiceOther\<close>) and the answers to the prompts of the chosen
  operation; choices 2 and 3 also carry the clock reading. Choices 4, 5 and 6 print, plot
  and export without touching the tables. Choice 7 calls \<^verbatim>\<open>save_data\<close> on the tables and
  leaves the loop. An exception leaves the program.
\<close>

datatype menu_input =
    Choice1 string string string "int option"
  | Choice2 timestamp string string string
  | Choice3 timestamp string string
  | Choice4
  | Choice5
  | Choice6
  | Choice7
  | ChoiceOther

datatype status = Running | Exited | Crashed

type_synonym tables = "book list \<times> loan list \<times> log_entry list"

fun after_op :: "outcome \<times> tables \<Rightarrow> status \<times> tables" where
  "after_op (IndexError, t) = (Crashed, t)"
| "after_op (_, t) = (Running, t)"

fun menu_step :: "menu_input \<Rightarrow> tables \<Rightarrow> status \<times> tables" where
  "menu_step (Choice1 book_id title author copies) (books, users, logs) =
     (case add_book books book_id title author copies of
        (oc, books') \<Rightarrow> after_op (oc, books', users, logs))"
| "menu_step (Choice2 today user_id name book_id) (books, users, logs) =
     after_op (issue_book today books users logs user_id name book_id)"
| "menu_step (Choice3 today user_id book_id) (books, users, logs) =
     after_op (return_book today books users logs user_id book_id)"
| "menu_step Choice4 t = (Running, t)"
| "menu_step Choice5 t = (Running, t)"
| "menu_step Choice6 t = (Running, t)"
| "menu_step Choice7 t = (Exited, t)"
| "menu_step ChoiceOther t = (Running, t)"

text \<open>The loop on a finite prefix of the input: \<open>Running\<close> at the end means the program is
  at the menu, waiting for the next choice.\<close>

fun main_loop :: "menu_input list \<Rightarrow> tables \<Rightarrow> status \<times> tables" where
  "main_loop [] t = (Running, t)"
| "main_loop (c # cs) t =
     (case menu_step c t of
        (Running, t') \<Rightarrow> main_loop cs t'
      | (st, t') \<Rightarrow> (st, t'))"

section \<open>Notions of the specification\<close>

text \<open>A Loan row matches (userId, bookId, ReturnDate absent).\<close>

definition matches :: "string \<Rightarrow> string \<Rightarrow> loan \<Rightarrow> bool" where
  "matches user_id book_id u \<longleftrightarrow>
     UserID u = user_id \<and> LoanBookID u = book_id \<and> ReturnDate u = None"

text \<open>"The book" of a given id: the first row of Books with that BookID.\<close>

definition book_of :: "book list \<Rightarrow> string \<Rightarrow> book option" where
  "book_of books book_id = find (\<lambda>b. BookID b = book_id) books"

text \<open>Whole days elapsed, fractional days discarded (truncation towards zero), and the
  fine of the specification, \<open>max(0, (elapsed - 14) * 5)\<close>.\<close>

definition elapsed_days :: "timestamp \<Rightarrow> timestamp \<Rightarrow> int" where
  "elapsed_days issue_date now = sgn (now - issue_date) * (\<bar>now - issue_date\<bar> div 86400000000000)"

definition spec_fine :: "int \<Rightarrow> int" where
  "spec_fine elapsed = max 0 ((elapsed - 14) * 5)"

text \<open>The number of outstanding Loans of a BookID, and the invariant of the data model for
  every row of Books.\<close>

definition outstanding :: "loan list \<Rightarrow> string \<Rightarrow> nat" where
  "outstanding users book_id =
     length (filter (\<lambda>u. LoanBookID u = book_id \<and> ReturnDate u = None) users)"

definition copies_invariant :: "book list \<Rightarrow> loan list \<Rightarrow> bool" where
  "copies_invariant books users \<longleftrightarrow>
     list_all (\<lambda>b. AvailableCopies b = TotalCopies b - int (outstanding users (BookID b))
                  \<and> int (outstanding users (BookID b)) \<le> TotalCopies b) books"

text \<open>BookIDs are unique, and every outstanding Loan references an existing Book.\<close>

definition well_formed :: "book list \<Rightarrow> loan list \<Rightarrow> bool" where
  "well_formed books users \<longleftrightarrow>
     distinct (map BookID books)
     \<and> list_all (\<lambda>u. ReturnDate u = None \<longrightarrow> LoanBookID u \<in> set (map BookID books)) users"

text \<open>Two tables of books agree on everything but AvailableCopies, row by row.\<close>

definition same_but_available :: "book list \<Rightarrow> book list \<Rightarrow> bool" where
  "same_but_available books' books \<longleftrightarrow>
     length books' = length books
     \<and> (\<forall>i < length books.
           BookID (books' ! i) = BookID (books ! i) \<and> Title (books' ! i) = Title (books ! i)
           \<and> Author (books' ! i) = Author (books ! i)
           \<and> TotalCopies (books' ! i) = TotalCopies (books ! i)
           \<and> book.more (books' ! i) = book.more (books ! i))"

section \<open>Properties\<close>

subsection \<open>Selections\<close>

lemma iloc0_filter_find: "iloc0 (filter P xs) = find P xs"
  by (induction xs) (simp_all add: iloc0_def)

lemma iloc0_map: "iloc0 (map f xs) = map_option f (iloc0 xs)"
  by (cases xs) (simp_all add: iloc0_def)

lemma book_of_None: "book_of books book_id = None \<longleftrightarrow> book_id \<notin> set (map BookID books)"
  by (auto simp: book_of_def find_None_iff)

lemma book_of_Some_mem: "book_of books book_id = Some b \<Longrightarrow> book_id \<in> set (map BookID books)"
  using book_of_None[of books book_id] by auto

subsection \<open>Issuing a book\<close>

text \<open>
  Claim C1. An issue operation on any tables: when the BookID is absent from Books it reports
  \<open>NotFound\<close> and returns the three tables as they were; when the book exists and its
  AvailableCopies is at most 0 it reports \<open>NoAvailability\<close> and returns the three tables as
  they were; otherwise it appends exactly one Loan row (user, name, book, IssueDate = now,
  ReturnDate absent), appends exactly one log entry with Action "Issued", and lowers
  AvailableCopies by exactly 1 in the rows of that BookID, every other row and field of Books
  staying as it was. The operation succeeds if and only if the book exists with
  AvailableCopies > 0.
\<close>

theorem issue_book_cases:
  "(book_of books book_id = None \<longrightarrow>
      issue_book today books users logs user_id name book_id = (NotFound, books, users, logs))
   \<and> (\<forall>b. book_of books book_id = Some b \<and> AvailableCopies b \<le> 0 \<longrightarrow>
      issue_book today books users logs user_id name book_id = (NoAvailability, books, users, logs))
   \<and> (\<forall>b. book_of books book_id = Some b \<and> 0 < AvailableCopies b \<longrightarrow>
      (\<exists>books'.
         issue_book today books users logs user_id name book_id =
           (BookIssued, books',
            users @ [\<lparr>UserID = user_id, Name = name, LoanBookID = book_id,
                      IssueDate = today, ReturnDate = None\<rparr>],
            logs @ [\<lparr>LogUserID = user_id, LogBookID = book_id, Action = ''Issued'', Date = today\<rparr>])
         \<and> length books' = length books
         \<and> (\<forall>i < length books.
               books' ! i = (if BookID (books ! i) = book_id
                             then (books ! i)\<lparr>AvailableCopies := AvailableCopies (books ! i) - 1\<rparr>
                             else books ! i))))
   \<and> (fst (issue_book today books users logs user_id name book_id) = BookIssued
        \<longleftrightarrow> (\<exists>b. book_of books book_id = Some b \<and> 0 < AvailableCopies b))"
proof (cases "book_of books book_id")
  case None
  then have "book_id \<notin> set (map BookID books)" by (simp add: book_of_None)
  with None show ?thesis by (simp add: issue_book_def)
next
  case (Some b)
  then have "book_id \<in> set (map BookID books)" by (rule book_of_Some_mem)
  moreover from Some have "iloc0 (filter (\<lambda>b. BookID b = book_id) books) = Some b"
    by (simp add: iloc0_filter_find book_of_def)
  ultimately show ?thesis using Some
    by (auto simp: issue_book_def Let_def)
qed

text \<open>The three cases of C1 on concrete tables.\<close>

theorem issue_book_cases_witness:
  "issue_book 7 [] [] [] ''U1'' ''Alice'' ''B1'' = (NotFound, [], [], [])
   \<and> issue_book 7 [\<lparr>BookID = ''B1'', Title = ''T'', Author = ''A'', TotalCopies = 1, AvailableCopies = 0\<rparr>]
        [] [] ''U1'' ''Alice'' ''B1''
      = (NoAvailability,
         [\<lparr>BookID = ''B1'', Title = ''T'', Author = ''A'', TotalCopies = 1, AvailableCopies = 0\<rparr>], [], [])
   \<and> issue_book 7 [\<lparr>BookID = ''B1'', Title = ''T'', Author = ''A'', TotalCopies = 2, AvailableCopies = 2\<rparr>]
        [] [] ''U1'' ''Alice'' ''B1''
      = (BookIssued,
         [\<lparr>BookID = ''B1'', Title = ''T'', Author = ''A'', TotalCopies = 2, AvailableCopies = 1\<rparr>],
         [\<lparr>UserID = ''U1'', Name = ''Alice'', LoanBookID = ''B1'', IssueDate = 7, ReturnDate = None\<rparr>],
         [\<lparr>LogUserID = ''U1'', LogBookID = ''B1'', Action = ''Issued'', Date = 7\<rparr>])"
proof -
  let ?b0 = "\<lparr>BookID = ''B1'', Title = ''T'', Author = ''A'', TotalCopies = 1, AvailableCopies = 0\<rparr>"
  let ?b2 = "\<lparr>BookID = ''B1'', Title = ''T'', Author = ''A'', TotalCopies = 2, AvailableCopies = 2\<rparr>"
  have n: "book_of [] ''B1'' = None" by (simp add: book_of_def)
  have z: "book_of [?b0] ''B1'' = Some ?b0 \<and> AvailableCopies ?b0 \<le> 0" by (simp add: book_of_def)
  have p: "book_of [?b2] ''B1'' = Some ?b2 \<and> 0 < AvailableCopies ?b2" by (simp add: book_of_def)
  from n issue_book_cases[where books = "[]" and book_id = "''B1''" and today = 7 and users = "[]"
      and logs = "[]" and user_id = "''U1''" and name = "''Alice''"]
  have 1: "issue_book 7 [] [] [] ''U1'' ''Alice'' ''B1'' = (NotFound, [], [], [])" by blast
  from z issue_book_cases[where books = "[?b0]" and book_id = "''B1''" and today = 7 and users = "[]"
      and logs = "[]" and user_id = "''U1''" and name = "''Alice''"]
  have 2: "issue_book 7 [?b0] [] [] ''U1'' ''Alice'' ''B1'' = (NoAvailability, [?b0], [], [])" by blast
  from p issue_book_cases[where books = "[?b2]" and book_id = "''B1''" and today = 7 and users = "[]"
      and logs = "[]" and user_id = "''U1''" and name = "''Alice''"]
  obtain books' where 3: "issue_book 7 [?b2] [] [] ''U1'' ''Alice'' ''B1'' =
           (BookIssued, books',
            [] @ [\<lparr>UserID = ''U1'', Name = ''Alice'', LoanBookID = ''B1'',
                      IssueDate = 7, ReturnDate = None\<rparr>],
            [] @ [\<lparr>LogUserID = ''U1'', LogBookID = ''B1'', Action = ''Issued'', Date = 7\<rparr>])"
     and 4: "length books' = length [?b2]" 
     and 5: "(\<forall>i < length [?b2].
               books' ! i = (if BookID ([?b2] ! i) = ''B1''
                             then ([?b2] ! i)\<lparr>AvailableCopies := AvailableCopies ([?b2] ! i) - 1\<rparr>
                             else [?b2] ! i))" by blast
  from 4 obtain x where x: "books' = [x]" by (cases books') auto
  with 5 have "x = \<lparr>BookID = ''B1'', Title = ''T'', Author = ''A'', TotalCopies = 2, AvailableCopies = 1\<rparr>" by simp
  with 1 2 3 x show ?thesis by simp
qed

subsection \<open>Adding a book\<close>

text \<open>
  Claim C5. An add-book operation: when the id already is the BookID of a row, it reports
  \<open>DuplicateID\<close> and returns Books as it was, the existing row included; otherwise, when the
  copies typed are not a number (\<open>None\<close>) or are below 1, it reports \<open>InvalidInput\<close> and
  returns Books as it was; otherwise it appends exactly one row, with the id, title and
  author given and AvailableCopies = TotalCopies = copies.
\<close>

theorem add_book_cases:
  "(book_id \<in> BookID ` set books \<longrightarrow>
      add_book books book_id title author copies = (DuplicateID, books))
   \<and> (book_id \<notin> BookID ` set books \<and> (copies = None \<or> (\<exists>c. copies = Some c \<and> c < 1)) \<longrightarrow>
      add_book books book_id title author copies = (InvalidInput, books))
   \<and> (\<forall>c. book_id \<notin> BookID ` set books \<and> copies = Some c \<and> 1 \<le> c \<longrightarrow>
      (\<exists>row. add_book books book_id title author copies = (BookAdded, books @ [row])
         \<and> BookID row = book_id \<and> Title row = title \<and> Author row = author
         \<and> TotalCopies row = c \<and> AvailableCopies row = c))"
  by (auto simp: add_book_def)

text \<open>
  The cases of C5 on concrete tables.
\<close>

theorem add_book_cases_witness:
  "add_book [\<lparr>BookID = ''B1'', Title = ''T'', Author = ''A'', TotalCopies = 2, AvailableCopies = 1\<rparr>]
      ''B1'' ''X'' ''Y'' (Some 3)
     = (DuplicateID, [\<lparr>BookID = ''B1'', Title = ''T'', Author = ''A'', TotalCopies = 2, AvailableCopies = 1\<rparr>])
   \<and> add_book [] ''B1'' ''T'' ''A'' None = (InvalidInput, [])
   \<and> add_book [] ''B1'' ''T'' ''A'' (Some 0) = (InvalidInput, [])
   \<and> (\<exists>row. add_book [] ''B1'' ''T'' ''A'' (Some 2) = (BookAdded, [row])
         \<and> TotalCopies row = 2 \<and> AvailableCopies row = 2)"
proof -
  let ?b = "\<lparr>BookID = ''B1'', Title = ''T'', Author = ''A'', TotalCopies = 2, AvailableCopies = 1\<rparr>"
  have d: "''B1'' \<in> BookID ` set [?b]" by simp
  have n: "''B1'' \<notin> BookID ` set ([] :: book list)" by simp
  from d add_book_cases[where books = "[?b]" and book_id = "''B1''" and title = "''X''"
      and author = "''Y''" and copies = "Some 3"]
  have 1: "add_book [?b] ''B1'' ''X'' ''Y'' (Some 3) = (DuplicateID, [?b])" by blast
  from n add_book_cases[where books = "[]" and book_id = "''B1''" and title = "''T''"
      and author = "''A''" and copies = None]
  have 2: "add_book [] ''B1'' ''T'' ''A'' None = (InvalidInput, [])" by blast
  from n add_book_cases[where books = "[]" and book_id = "''B1''" and title = "''T''"
      and author = "''A''" and copies = "Some 0"]
  have 3: "add_book [] ''B1'' ''T'' ''A'' (Some 0) = (InvalidInput, [])" by simp
  from n add_book_cases[where books = "[]" and book_id = "''B1''" and title = "''T''"
      and author = "''A''" and copies = "Some 2"]
  have 4: "\<exists>row. add_book [] ''B1'' ''T'' ''A'' (Some 2) = (BookAdded, [row])
         \<and> TotalCopies row = 2 \<and> AvailableCopies row = 2" by auto
  from 1 2 3 4 show ?thesis by blast
qed

subsection \<open>Returning a book\<close>

lemma NS_PER_DAY_pos: "0 < NS_PER_DAY"
  by (simp add: NS_PER_DAY_def)

lemma fine_floor_trunc:
  "max 0 ((timedelta_days (today - issue_date) - 14) * FINE_PER_DAY)
     = spec_fine (elapsed_days issue_date today)"
proof (cases "issue_date \<le> today")
  case True
  then show ?thesis
    by (simp add: timedelta_days_def elapsed_days_def spec_fine_def FINE_PER_DAY_def
        NS_PER_DAY_def sgn_if)
next
  case False
  then have neg: "today - issue_date < 0" by simp
  then have "(today - issue_date) div NS_PER_DAY < 0"
    using NS_PER_DAY_pos by (rule div_neg_pos_less0)
  moreover have "elapsed_days issue_date today \<le> 0"
    using neg by (simp add: elapsed_days_def sgn_if pos_imp_zdiv_nonneg_iff)
  ultimately show ?thesis
    by (simp add: timedelta_days_def spec_fine_def FINE_PER_DAY_def max_def)
qed

lemma days_floor_trunc:
  assumes "issue_date \<le> today"
  shows "timedelta_days (today - issue_date) = elapsed_days issue_date today"
    and "elapsed_days issue_date today * NS_PER_DAY \<le> today - issue_date"
    and "today - issue_date < (elapsed_days issue_date today + 1) * NS_PER_DAY"
proof -
  show e: "timedelta_days (today - issue_date) = elapsed_days issue_date today"
    using assms by (simp add: timedelta_days_def elapsed_days_def NS_PER_DAY_def sgn_if)
  let ?d = "today - issue_date"
  have dm: "?d div NS_PER_DAY * NS_PER_DAY + ?d mod NS_PER_DAY = ?d"
    by (rule div_mult_mod_eq)
  have lo: "0 \<le> ?d mod NS_PER_DAY" and hi: "?d mod NS_PER_DAY < NS_PER_DAY"
    using NS_PER_DAY_pos by simp_all
  from e have q: "elapsed_days issue_date today = ?d div NS_PER_DAY"
    by (simp add: timedelta_days_def)
  show "elapsed_days issue_date today * NS_PER_DAY \<le> today - issue_date"
    using dm lo unfolding q by linarith
  show "today - issue_date < (elapsed_days issue_date today + 1) * NS_PER_DAY"
  proof -
    have "(?d div NS_PER_DAY + 1) * NS_PER_DAY = ?d div NS_PER_DAY * NS_PER_DAY + NS_PER_DAY"
      by (simp add: distrib_right)
    with dm hi show ?thesis unfolding q by linarith
  qed
qed

lemma list_ex_find: "list_ex P xs \<longleftrightarrow> find P xs \<noteq> None"
  by (auto simp: list_ex_iff find_None_iff)

lemma matches_lambda:
  "(\<lambda>u. UserID u = user_id \<and> LoanBookID u = book_id \<and> ReturnDate u = None) = matches user_id book_id"
  by (simp add: matches_def fun_eq_iff)

lemma return_book_NoActiveLoan:
  "find (matches user_id book_id) users = None \<Longrightarrow>
     return_book today books users logs user_id book_id = (NoActiveLoan, books, users, logs)"
  by (simp add: return_book_def matches_lambda list_ex_find)

lemma return_book_Returned:
  assumes "find (matches user_id book_id) users = Some l"
  shows "return_book today books users logs user_id book_id =
     (BookReturned (max 0 ((timedelta_days (today - IssueDate l) - 14) * FINE_PER_DAY)),
      map (\<lambda>b. if BookID b = book_id then b\<lparr>AvailableCopies := AvailableCopies b + 1\<rparr> else b) books,
      map (\<lambda>u. if matches user_id book_id u then u\<lparr>ReturnDate := Some today\<rparr> else u) users,
      logs @ [\<lparr>LogUserID = user_id, LogBookID = book_id, Action = ''Returned'', Date = today\<rparr>])"
  using assms
  by (simp add: return_book_def matches_lambda list_ex_find iloc0_map iloc0_filter_find Let_def)

text \<open>
  Claim C2. A return operation: when no Loan row matches (userId, bookId, ReturnDate absent)
  it reports \<open>NoActiveLoan\<close> and returns the three tables as they were. Otherwise, with \<open>l\<close>
  the first matching row: the fine reported is \<open>max(0, (elapsed - 14) * 5)\<close> for \<open>elapsed\<close>
  the whole days between the IssueDate of \<open>l\<close> and now, fractional days discarded; it is 0
  whenever \<open>elapsed \<le> 14\<close>; when the IssueDate is not after now, the day count the code
  computes is that truncation, the largest whole number of days not above the difference;
  the ReturnDate of \<open>l\<close> becomes now; AvailableCopies rises by exactly 1 in the rows of that
  BookID and no other row of Books changes; exactly one log entry with Action "Returned"
  is appended.
\<close>

theorem return_book_cases:
  "(find (matches user_id book_id) users = None \<longrightarrow>
      return_book today books users logs user_id book_id = (NoActiveLoan, books, users, logs))
   \<and> (\<forall>l. find (matches user_id book_id) users = Some l \<longrightarrow>
      (\<exists>books' users'.
         return_book today books users logs user_id book_id =
           (BookReturned (spec_fine (elapsed_days (IssueDate l) today)), books', users',
            logs @ [\<lparr>LogUserID = user_id, LogBookID = book_id, Action = ''Returned'', Date = today\<rparr>])
         \<and> (elapsed_days (IssueDate l) today \<le> 14 \<longrightarrow> spec_fine (elapsed_days (IssueDate l) today) = 0)
         \<and> (IssueDate l \<le> today \<longrightarrow>
               timedelta_days (today - IssueDate l) = elapsed_days (IssueDate l) today
               \<and> elapsed_days (IssueDate l) today * NS_PER_DAY \<le> today - IssueDate l
               \<and> today - IssueDate l < (elapsed_days (IssueDate l) today + 1) * NS_PER_DAY)
         \<and> length users' = length users
         \<and> (\<forall>i < length users. users ! i = l \<longrightarrow> users' ! i = l\<lparr>ReturnDate := Some today\<rparr>)
         \<and> length books' = length books
         \<and> (\<forall>i < length books.
               books' ! i = (if BookID (books ! i) = book_id
                             then (books ! i)\<lparr>AvailableCopies := AvailableCopies (books ! i) + 1\<rparr>
                             else books ! i))))"
proof (intro conjI impI allI)
  assume "find (matches user_id book_id) users = None"
  then show "return_book today books users logs user_id book_id = (NoActiveLoan, books, users, logs)"
    by (rule return_book_NoActiveLoan)
next
  fix l
  assume l: "find (matches user_id book_id) users = Some l"
  then have m: "matches user_id book_id l"
    by (auto simp: find_Some_iff)
  let ?books' = "map (\<lambda>b. if BookID b = book_id then b\<lparr>AvailableCopies := AvailableCopies b + 1\<rparr> else b) books"
  let ?users' = "map (\<lambda>u. if matches user_id book_id u then u\<lparr>ReturnDate := Some today\<rparr> else u) users"
  have r: "return_book today books users logs user_id book_id =
           (BookReturned (spec_fine (elapsed_days (IssueDate l) today)), ?books', ?users',
            logs @ [\<lparr>LogUserID = user_id, LogBookID = book_id, Action = ''Returned'', Date = today\<rparr>])"
    using return_book_Returned[OF l] by (simp add: fine_floor_trunc)
  have z: "elapsed_days (IssueDate l) today \<le> 14 \<longrightarrow> spec_fine (elapsed_days (IssueDate l) today) = 0"
    by (simp add: spec_fine_def max_def mult_le_0_iff)
  have d: "IssueDate l \<le> today \<longrightarrow>
               timedelta_days (today - IssueDate l) = elapsed_days (IssueDate l) today
               \<and> elapsed_days (IssueDate l) today * NS_PER_DAY \<le> today - IssueDate l
               \<and> today - IssueDate l < (elapsed_days (IssueDate l) today + 1) * NS_PER_DAY"
    using days_floor_trunc[of "IssueDate l" today] by blast
  have u: "\<forall>i < length users. users ! i = l \<longrightarrow> ?users' ! i = l\<lparr>ReturnDate := Some today\<rparr>"
    using m by simp
  have b: "\<forall>i < length books.
               ?books' ! i = (if BookID (books ! i) = book_id
                             then (books ! i)\<lparr>AvailableCopies := AvailableCopies (books ! i) + 1\<rparr>
                             else books ! i)"
    by simp
  show "\<exists>books' users'.
         return_book today books users logs user_id book_id =
           (BookReturned (spec_fine (elapsed_days (IssueDate l) today)), books', users',
            logs @ [\<lparr>LogUserID = user_id, LogBookID = book_id, Action = ''Returned'', Date = today\<rparr>])
         \<and> (elapsed_days (IssueDate l) today \<le> 14 \<longrightarrow> spec_fine (elapsed_days (IssueDate l) today) = 0)
         \<and> (IssueDate l \<le> today \<longrightarrow>
               timedelta_days (today - IssueDate l) = elapsed_days (IssueDate l) today
               \<and> elapsed_days (IssueDate l) today * NS_PER_DAY \<le> today - IssueDate l
               \<and> today - IssueDate l < (elapsed_days (IssueDate l) today + 1) * NS_PER_DAY)
         \<and> length users' = length users
         \<and> (\<forall>i < length users. users ! i = l \<longrightarrow> users' ! i = l\<lparr>ReturnDate := Some today\<rparr>)
         \<and> length books' = length books
         \<and> (\<forall>i < length books.
               books' ! i = (if BookID (books ! i) = book_id
                             then (books ! i)\<lparr>AvailableCopies := AvailableCopies (books ! i) + 1\<rparr>
                             else books ! i))"
    apply (rule exI[of _ ?books'])
    apply (rule exI[of _ ?users'])
    using r z d u b by simp
qed

text \<open>
  C2 on concrete tables: no matching row, and a return 20 days and 5 nanoseconds after the
  issue, with fine (20 - 14) * 5 = 30.
\<close>

theorem return_book_cases_witness:
  "return_book 1728000000000005 [] [] [] ''U1'' ''B1'' = (NoActiveLoan, [], [], [])
   \<and> return_book 1728000000000005
        [\<lparr>BookID = ''B1'', Title = ''T'', Author = ''A'', TotalCopies = 2, AvailableCopies = 1\<rparr>]
        [\<lparr>UserID = ''U1'', Name = ''Alice'', LoanBookID = ''B1'', IssueDate = 0, ReturnDate = None\<rparr>]
        [] ''U1'' ''B1''
      = (BookReturned 30,
         [\<lparr>BookID = ''B1'', Title = ''T'', Author = ''A'', TotalCopies = 2, AvailableCopies = 2\<rparr>],
         [\<lparr>UserID = ''U1'', Name = ''Alice'', LoanBookID = ''B1'', IssueDate = 0,
           ReturnDate = Some 1728000000000005\<rparr>],
         [\<lparr>LogUserID = ''U1'', LogBookID = ''B1'', Action = ''Returned'', Date = 1728000000000005\<rparr>])"
proof -
  let ?b = "\<lparr>BookID = ''B1'', Title = ''T'', Author = ''A'', TotalCopies = 2, AvailableCopies = 1\<rparr>"
  let ?l = "\<lparr>UserID = ''U1'', Name = ''Alice'', LoanBookID = ''B1'', IssueDate = 0, ReturnDate = None\<rparr>"
  let ?t = "1728000000000005 :: int"
  have n: "find (matches ''U1'' ''B1'') [] = None" by simp
  have s: "find (matches ''U1'' ''B1'') [?l] = Some ?l" by (simp add: matches_def)
  have f: "spec_fine (elapsed_days (IssueDate ?l) ?t) = 30"
    by (simp add: spec_fine_def elapsed_days_def)
  from n return_book_cases[where users = "[]" and user_id = "''U1''" and book_id = "''B1''"
      and today = ?t and books = "[]" and logs = "[]"]
  have 1: "return_book ?t [] [] [] ''U1'' ''B1'' = (NoActiveLoan, [], [], [])" by blast
  from s return_book_cases[where users = "[?l]" and user_id = "''U1''" and book_id = "''B1''"
      and today = ?t and books = "[?b]" and logs = "[]"]
  obtain books' users' where
    r: "return_book ?t [?b] [?l] [] ''U1'' ''B1'' =
          (BookReturned (spec_fine (elapsed_days (IssueDate ?l) ?t)), books', users',
           [] @ [\<lparr>LogUserID = ''U1'', LogBookID = ''B1'', Action = ''Returned'', Date = ?t\<rparr>])"
    and lu: "length users' = length [?l]"
    and u: "\<forall>i < length [?l]. [?l] ! i = ?l \<longrightarrow> users' ! i = ?l\<lparr>ReturnDate := Some ?t\<rparr>"
    and lb: "length books' = length [?b]"
    and b: "\<forall>i < length [?b].
               books' ! i = (if BookID ([?b] ! i) = ''B1''
                             then ([?b] ! i)\<lparr>AvailableCopies := AvailableCopies ([?b] ! i) + 1\<rparr>
                             else [?b] ! i)"
    by blast
  from lu obtain x where x: "users' = [x]" by (cases users') auto
  from lb obtain y where y: "books' = [y]" by (cases books') auto
  from u x have "x = ?l\<lparr>ReturnDate := Some ?t\<rparr>" by simp
  moreover from b y have "y = ?b\<lparr>AvailableCopies := 2\<rparr>" by simp
  ultimately show ?thesis using 1 r f x y by simp
qed

subsection \<open>What issue and return leave alone in Books\<close>

lemma same_but_available_map:
  "same_but_available (map (\<lambda>b. if P b then b\<lparr>AvailableCopies := f b\<rparr> else b) books) books"
  by (simp add: same_but_available_def)

lemma same_but_available_refl: "same_but_available books books"
  by (simp add: same_but_available_def)

lemma issue_book_books:
  "fst (snd (issue_book today books users logs user_id name book_id)) = books
   \<or> fst (snd (issue_book today books users logs user_id name book_id))
       = map (\<lambda>b. if BookID b = book_id then b\<lparr>AvailableCopies := AvailableCopies b - 1\<rparr> else b) books"
  by (simp add: issue_book_def Let_def split: option.split)

lemma return_book_books:
  "fst (snd (return_book today books users logs user_id book_id)) = books
   \<or> fst (snd (return_book today books users logs user_id book_id))
       = map (\<lambda>b. if BookID b = book_id then b\<lparr>AvailableCopies := AvailableCopies b + 1\<rparr> else b) books"
  by (simp add: return_book_def Let_def split: option.split)

text \<open>
  Claim C10. After an issue and after a return for \<open>book_id\<close>, Books has the same number of
  rows, every row keeps its BookID, Title, Author and TotalCopies, and a row whose BookID is
  not \<open>book_id\<close> is unchanged altogether, so AvailableCopies changes only under \<open>book_id\<close>.
\<close>

theorem books_frame:
  "same_but_available (fst (snd (issue_book today books users logs user_id name book_id))) books
   \<and> (\<forall>i < length books. BookID (books ! i) \<noteq> book_id \<longrightarrow>
         fst (snd (issue_book today books users logs user_id name book_id)) ! i = books ! i)
   \<and> same_but_available (fst (snd (return_book today books users logs user_id book_id))) books
   \<and> (\<forall>i < length books. BookID (books ! i) \<noteq> book_id \<longrightarrow>
         fst (snd (return_book today books users logs user_id book_id)) ! i = books ! i)"
proof -
  have i: "same_but_available (fst (snd (issue_book today books users logs user_id name book_id))) books"
    using issue_book_books[of today books users logs user_id name book_id]
    by (auto simp: same_but_available_map same_but_available_refl)
  have r: "same_but_available (fst (snd (return_book today books users logs user_id book_id))) books"
    using return_book_books[of today books users logs user_id book_id]
    by (auto simp: same_but_available_map same_but_available_refl)
  have i': "\<forall>i < length books. BookID (books ! i) \<noteq> book_id \<longrightarrow>
         fst (snd (issue_book today books users logs user_id name book_id)) ! i = books ! i"
    using issue_book_books[of today books users logs user_id name book_id] by auto
  have r': "\<forall>i < length books. BookID (books ! i) \<noteq> book_id \<longrightarrow>
         fst (snd (return_book today books users logs user_id book_id)) ! i = books ! i"
    using return_book_books[of today books users logs user_id book_id] by auto
  from i i' r r' show ?thesis by blast
qed

text \<open>
  C10 on a table of two books: issuing and returning B1 leaves the row of B2 as it was.
\<close>

theorem books_frame_witness:
  "same_but_available
     (fst (snd (issue_book 7
        [\<lparr>BookID = ''B1'', Title = ''T'', Author = ''A'', TotalCopies = 2, AvailableCopies = 2\<rparr>,
         \<lparr>BookID = ''B2'', Title = ''S'', Author = ''C'', TotalCopies = 1, AvailableCopies = 1\<rparr>]
        [] [] ''U1'' ''Alice'' ''B1'')))
     [\<lparr>BookID = ''B1'', Title = ''T'', Author = ''A'', TotalCopies = 2, AvailableCopies = 2\<rparr>,
      \<lparr>BookID = ''B2'', Title = ''S'', Author = ''C'', TotalCopies = 1, AvailableCopies = 1\<rparr>]
   \<and> fst (snd (issue_book 7
        [\<lparr>BookID = ''B1'', Title = ''T'', Author = ''A'', TotalCopies = 2, AvailableCopies = 2\<rparr>,
         \<lparr>BookID = ''B2'', Title = ''S'', Author = ''C'', TotalCopies = 1, AvailableCopies = 1\<rparr>]
        [] [] ''U1'' ''Alice'' ''B1'')) ! 1
      = \<lparr>BookID = ''B2'', Title = ''S'', Author = ''C'', TotalCopies = 1, AvailableCopies = 1\<rparr>
   \<and> fst (snd (return_book 9
        [\<lparr>BookID = ''B1'', Title = ''T'', Author = ''A'', TotalCopies = 2, AvailableCopies = 2\<rparr>,
         \<lparr>BookID = ''B2'', Title = ''S'', Author = ''C'', TotalCopies = 1, AvailableCopies = 1\<rparr>]
        [] [] ''U1'' ''B1'')) ! 1
      = \<lparr>BookID = ''B2'', Title = ''S'', Author = ''C'', TotalCopies = 1, AvailableCopies = 1\<rparr>"
  using books_frame[where today = 7 and user_id = "''U1''" and name = "''Alice''" and book_id = "''B1''"
      and users = "[]" and logs = "[]"
      and books = "[\<lparr>BookID = ''B1'', Title = ''T'', Author = ''A'', TotalCopies = 2, AvailableCopies = 2\<rparr>,
         \<lparr>BookID = ''B2'', Title = ''S'', Author = ''C'', TotalCopies = 1, AvailableCopies = 1\<rparr>]"]
    books_frame[where today = 9 and user_id = "''U1''" and name = "''Alice''" and book_id = "''B1''"
      and users = "[]" and logs = "[]"
      and books = "[\<lparr>BookID = ''B1'', Title = ''T'', Author = ''A'', TotalCopies = 2, AvailableCopies = 2\<rparr>,
         \<lparr>BookID = ''B2'', Title = ''S'', Author = ''C'', TotalCopies = 1, AvailableCopies = 1\<rparr>]"]
  by simp

subsection \<open>Errors and the menu loop\<close>

lemma add_book_error_unchanged:
  "fst (add_book books book_id title author copies) \<in> {DuplicateID, InvalidInput}
     \<Longrightarrow> snd (add_book books book_id title author copies) = books"
  by (auto simp: add_book_def split: if_splits option.splits)

lemma issue_book_error_unchanged:
  "fst (issue_book today books users logs user_id name book_id) \<in> {NotFound, NoAvailability}
     \<Longrightarrow> snd (issue_book today books users logs user_id name book_id) = (books, users, logs)"
  by (auto simp: issue_book_def Let_def split: if_splits option.splits)

lemma return_book_error_unchanged:
  "fst (return_book today books users logs user_id book_id) = NoActiveLoan
     \<Longrightarrow> snd (return_book today books users logs user_id book_id) = (books, users, logs)"
  by (auto simp: return_book_def Let_def split: if_splits option.splits)

lemma after_op_Running:
  "oc \<noteq> IndexError \<Longrightarrow> after_op (oc, t) = (Running, t)"
  by (cases oc) simp_all

text \<open>
  Claim C6. When an operation reports \<open>DuplicateID\<close>, \<open>InvalidInput\<close>, \<open>NotFound\<close>,
  \<open>NoAvailability\<close> or \<open>NoActiveLoan\<close>, it returns Books, Loans and Logs exactly as they were,
  and that round of the menu loop ends with the program still running on the same tables:
  the loop goes on with the rest of the input.
\<close>

theorem errors_leave_tables:
  "(fst (add_book books book_id title author copies) \<in> {DuplicateID, InvalidInput} \<longrightarrow>
      snd (add_book books book_id title author copies) = books
      \<and> menu_step (Choice1 book_id title author copies) (books, users, logs)
          = (Running, books, users, logs)
      \<and> main_loop (Choice1 book_id title author copies # rest) (books, users, logs)
          = main_loop rest (books, users, logs))
   \<and> (fst (issue_book today books users logs user_id name book_id) \<in> {NotFound, NoAvailability} \<longrightarrow>
      snd (issue_book today books users logs user_id name book_id) = (books, users, logs)
      \<and> menu_step (Choice2 today user_id name book_id) (books, users, logs)
          = (Running, books, users, logs)
      \<and> main_loop (Choice2 today user_id name book_id # rest) (books, users, logs)
          = main_loop rest (books, users, logs))
   \<and> (fst (return_book today books users logs user_id book_id) = NoActiveLoan \<longrightarrow>
      snd (return_book today books users logs user_id book_id) = (books, users, logs)
      \<and> menu_step (Choice3 today user_id book_id) (books, users, logs)
          = (Running, books, users, logs)
      \<and> main_loop (Choice3 today user_id book_id # rest) (books, users, logs)
          = main_loop rest (books, users, logs))"
proof (intro conjI impI)
  assume a: "fst (add_book books book_id title author copies) \<in> {DuplicateID, InvalidInput}"
  then show s: "snd (add_book books book_id title author copies) = books"
    by (rule add_book_error_unchanged)
  from a have "fst (add_book books book_id title author copies) \<noteq> IndexError" by auto
  with s show m: "menu_step (Choice1 book_id title author copies) (books, users, logs)
          = (Running, books, users, logs)"
    by (cases "add_book books book_id title author copies") (simp add: after_op_Running)
  then show "main_loop (Choice1 book_id title author copies # rest) (books, users, logs)
          = main_loop rest (books, users, logs)"
    by simp
next
  assume a: "fst (issue_book today books users logs user_id name book_id) \<in> {NotFound, NoAvailability}"
  then show s: "snd (issue_book today books users logs user_id name book_id) = (books, users, logs)"
    by (rule issue_book_error_unchanged)
  from a have "fst (issue_book today books users logs user_id name book_id) \<noteq> IndexError" by auto
  with s show m: "menu_step (Choice2 today user_id name book_id) (books, users, logs)
          = (Running, books, users, logs)"
    by (cases "issue_book today books users logs user_id name book_id") (simp add: after_op_Running)
  then show "main_loop (Choice2 today user_id name book_id # rest) (books, users, logs)
          = main_loop rest (books, users, logs)"
    by simp
next
  assume a: "fst (return_book today books users logs user_id book_id) = NoActiveLoan"
  then show s: "snd (return_book today books users logs user_id book_id) = (books, users, logs)"
    by (rule return_book_error_unchanged)
  from a have "fst (return_book today books users logs user_id book_id) \<noteq> IndexError" by auto
  with s show m: "menu_step (Choice3 today user_id book_id) (books, users, logs)
          = (Running, books, users, logs)"
    by (cases "return_book today books users logs user_id book_id") (simp add: after_op_Running)
  then show "main_loop (Choice3 today user_id book_id # rest) (books, users, logs)
          = main_loop rest (books, users, logs)"
    by simp
qed

text \<open>
  C6 on concrete tables, once for each of the five errors.
\<close>

theorem errors_leave_tables_witness:
  "menu_step (Choice1 ''B1'' ''X'' ''Y'' (Some 3))
      ([\<lparr>BookID = ''B1'', Title = ''T'', Author = ''A'', TotalCopies = 1, AvailableCopies = 0\<rparr>], [], [])
     = (Running, [\<lparr>BookID = ''B1'', Title = ''T'', Author = ''A'', TotalCopies = 1, AvailableCopies = 0\<rparr>], [], [])
   \<and> menu_step (Choice1 ''B2'' ''X'' ''Y'' None)
      ([\<lparr>BookID = ''B1'', Title = ''T'', Author = ''A'', TotalCopies = 1, AvailableCopies = 0\<rparr>], [], [])
     = (Running, [\<lparr>BookID = ''B1'', Title = ''T'', Author = ''A'', TotalCopies = 1, AvailableCopies = 0\<rparr>], [], [])
   \<and> menu_step (Choice2 7 ''U1'' ''Alice'' ''B2'')
      ([\<lparr>BookID = ''B1'', Title = ''T'', Author = ''A'', TotalCopies = 1, AvailableCopies = 0\<rparr>], [], [])
     = (Running, [\<lparr>BookID = ''B1'', Title = ''T'', Author = ''A'', TotalCopies = 1, AvailableCopies = 0\<rparr>], [], [])
   \<and> menu_step (Choice2 7 ''U1'' ''Alice'' ''B1'')
      ([\<lparr>BookID = ''B1'', Title = ''T'', Author = ''A'', TotalCopies = 1, AvailableCopies = 0\<rparr>], [], [])
     = (Running, [\<lparr>BookID = ''B1'', Title = ''T'', Author = ''A'', TotalCopies = 1, AvailableCopies = 0\<rparr>], [], [])
   \<and> menu_step (Choice3 7 ''U1'' ''B1'')
      ([\<lparr>BookID = ''B1'', Title = ''T'', Author = ''A'', TotalCopies = 1, AvailableCopies = 0\<rparr>], [], [])
     = (Running, [\<lparr>BookID = ''B1'', Title = ''T'', Author = ''A'', TotalCopies = 1, AvailableCopies = 0\<rparr>], [], [])"
proof -
  let ?b = "\<lparr>BookID = ''B1'', Title = ''T'', Author = ''A'', TotalCopies = 1, AvailableCopies = 0\<rparr>"
  have 1: "fst (add_book [?b] ''B1'' ''X'' ''Y'' (Some 3)) \<in> {DuplicateID, InvalidInput}"
    by (simp add: add_book_def)
  have 2: "fst (add_book [?b] ''B2'' ''X'' ''Y'' None) \<in> {DuplicateID, InvalidInput}"
    by (simp add: add_book_def)
  have 3: "fst (issue_book 7 [?b] [] [] ''U1'' ''Alice'' ''B2'') \<in> {NotFound, NoAvailability}"
    by (simp add: issue_book_def)
  have 4: "fst (issue_book 7 [?b] [] [] ''U1'' ''Alice'' ''B1'') \<in> {NotFound, NoAvailability}"
    by (simp add: issue_book_def iloc0_def)
  have 5: "fst (return_book 7 [?b] [] [] ''U1'' ''B1'') = NoActiveLoan"
    by (simp add: return_book_def)
  from 1 errors_leave_tables[where books = "[?b]" and book_id = "''B1''" and title = "''X''"
      and author = "''Y''" and copies = "Some 3" and users = "[]" and logs = "[]"]
  have a: "menu_step (Choice1 ''B1'' ''X'' ''Y'' (Some 3)) ([?b], [], []) = (Running, [?b], [], [])"
    by blast
  from 2 errors_leave_tables[where books = "[?b]" and book_id = "''B2''" and title = "''X''"
      and author = "''Y''" and copies = None and users = "[]" and logs = "[]"]
  have b: "menu_step (Choice1 ''B2'' ''X'' ''Y'' None) ([?b], [], []) = (Running, [?b], [], [])"
    by blast
  from 3 errors_leave_tables[where books = "[?b]" and book_id = "''B2''" and today = 7
      and user_id = "''U1''" and name = "''Alice''" and users = "[]" and logs = "[]"]
  have c: "menu_step (Choice2 7 ''U1'' ''Alice'' ''B2'') ([?b], [], []) = (Running, [?b], [], [])"
    by blast
  from 4 errors_leave_tables[where books = "[?b]" and book_id = "''B1''" and today = 7
      and user_id = "''U1''" and name = "''Alice''" and users = "[]" and logs = "[]"]
  have d: "menu_step (Choice2 7 ''U1'' ''Alice'' ''B1'') ([?b], [], []) = (Running, [?b], [], [])"
    by blast
  from 5 errors_leave_tables[where books = "[?b]" and book_id = "''B1''" and today = 7
      and user_id = "''U1''" and users = "[]" and logs = "[]"]
  have e: "menu_step (Choice3 7 ''U1'' ''B1'') ([?b], [], []) = (Running, [?b], [], [])"
    by blast
  from a b c d e show ?thesis by blast
qed

text \<open>No operation raises: the selections read with \<^verbatim>\<open>.iloc[0]\<close> are never empty, and
  only choice 7 leaves the loop.\<close>

lemma issue_book_no_IndexError:
  "fst (issue_book today books users logs user_id name book_id) \<noteq> IndexError"
proof (cases "book_of books book_id")
  case None
  then show ?thesis by (simp add: issue_book_def book_of_None)
next
  case (Some b)
  then have "iloc0 (filter (\<lambda>b. BookID b = book_id) books) = Some b"
    by (simp add: iloc0_filter_find book_of_def)
  then show ?thesis by (simp add: issue_book_def Let_def)
qed

lemma return_book_no_IndexError:
  "fst (return_book today books users logs user_id book_id) \<noteq> IndexError"
proof (cases "find (matches user_id book_id) users")
  case None
  then show ?thesis by (simp add: return_book_NoActiveLoan)
next
  case (Some l)
  then show ?thesis by (simp add: return_book_Returned)
qed

lemma add_book_no_IndexError:
  "fst (add_book books book_id title author copies) \<noteq> IndexError"
  by (simp add: add_book_def split: option.split)

lemma menu_step_status:
  "fst (menu_step c t) = (if c = Choice7 then Exited else Running)"
proof -
  obtain books users logs where t: "t = (books, users, logs)" by (cases t)
  show ?thesis
  proof (cases c)
    case (Choice1 book_id title author copies)
    then show ?thesis
      using add_book_no_IndexError[of books book_id title author copies]
      by (cases "add_book books book_id title author copies") (simp add: t after_op_Running)
  next
    case (Choice2 today user_id name book_id)
    then show ?thesis
      using issue_book_no_IndexError[of today books users logs user_id name book_id]
      by (cases "issue_book today books users logs user_id name book_id") (simp add: t after_op_Running)
  next
    case (Choice3 today user_id book_id)
    then show ?thesis
      using return_book_no_IndexError[of today books users logs user_id book_id]
      by (cases "return_book today books users logs user_id book_id") (simp add: t after_op_Running)
  qed simp_all
qed

lemma issue_book_outcome:
  "fst (issue_book today books users logs user_id name book_id) =
     (case book_of books book_id of
        None \<Rightarrow> NotFound
      | Some b \<Rightarrow> if AvailableCopies b \<le> 0 then NoAvailability else BookIssued)"
proof (cases "book_of books book_id")
  case None
  then have "book_id \<notin> set (map BookID books)" by (simp add: book_of_None)
  with None show ?thesis by (simp add: issue_book_def)
next
  case (Some b)
  then have "iloc0 (filter (\<lambda>b. BookID b = book_id) books) = Some b"
    by (simp add: iloc0_filter_find book_of_def)
  with Some show ?thesis using book_of_Some_mem[OF Some] by (simp add: issue_book_def Let_def)
qed

subsection \<open>Several outstanding loans of one user and book\<close>

text \<open>
  Claim C9. What an issue reports depends on Books alone: \<open>NotFound\<close> when the book is
  absent, \<open>NoAvailability\<close> when its AvailableCopies is at most 0, success otherwise; the
  Loans table is never consulted. So a state with two outstanding Loan rows for one
  (UserID, BookID) pair is reachable from empty tables: add B1 with 2 copies, then issue it
  twice to U1.
\<close>

theorem issue_ignores_outstanding_loans:
  "fst (issue_book today books users logs user_id name book_id)
     = (case book_of books book_id of
          None \<Rightarrow> NotFound
        | Some b \<Rightarrow> if AvailableCopies b \<le> 0 then NoAvailability else BookIssued)
   \<and> fst (issue_book today books users logs user_id name book_id)
     = fst (issue_book today books [] [] user_id name book_id)
   \<and> (\<exists>books users logs.
        main_loop [Choice1 ''B1'' ''Title'' ''Author'' (Some 2),
                   Choice2 1 ''U1'' ''Alice'' ''B1'',
                   Choice2 2 ''U1'' ''Alice'' ''B1''] ([], [], []) = (Running, books, users, logs)
        \<and> length (filter (matches ''U1'' ''B1'') users) = 2)"
proof (intro conjI)
  show "fst (issue_book today books users logs user_id name book_id)
     = (case book_of books book_id of
          None \<Rightarrow> NotFound
        | Some b \<Rightarrow> if AvailableCopies b \<le> 0 then NoAvailability else BookIssued)"
    by (rule issue_book_outcome)
  show "fst (issue_book today books users logs user_id name book_id)
     = fst (issue_book today books [] [] user_id name book_id)"
    by (simp add: issue_book_outcome)
  have "main_loop [Choice1 ''B1'' ''Title'' ''Author'' (Some 2),
                   Choice2 1 ''U1'' ''Alice'' ''B1'',
                   Choice2 2 ''U1'' ''Alice'' ''B1''] ([], [], [])
     = (Running,
        [\<lparr>BookID = ''B1'', Title = ''Title'', Author = ''Author'', TotalCopies = 2, AvailableCopies = 0\<rparr>],
        [\<lparr>UserID = ''U1'', Name = ''Alice'', LoanBookID = ''B1'', IssueDate = 1, ReturnDate = None\<rparr>,
         \<lparr>UserID = ''U1'', Name = ''Alice'', LoanBookID = ''B1'', IssueDate = 2, ReturnDate = None\<rparr>],
        [\<lparr>LogUserID = ''U1'', LogBookID = ''B1'', Action = ''Issued'', Date = 1\<rparr>,
         \<lparr>LogUserID = ''U1'', LogBookID = ''B1'', Action = ''Issued'', Date = 2\<rparr>])"
    by (simp add: add_book_def issue_book_def iloc0_def)
  then show "\<exists>books users logs.
        main_loop [Choice1 ''B1'' ''Title'' ''Author'' (Some 2),
                   Choice2 1 ''U1'' ''Alice'' ''B1'',
                   Choice2 2 ''U1'' ''Alice'' ''B1''] ([], [], []) = (Running, books, users, logs)
        \<and> length (filter (matches ''U1'' ''B1'') users) = 2"
    by (simp add: matches_def)
qed

text \<open>
  Claim C4 says that, when several Loan rows match (userId, bookId, ReturnDate absent), a
  return sets the ReturnDate of the first one only and leaves the others outstanding. The
  code at such an input: after adding B1 with 2 copies and issuing it twice to U1, one return
  sets the ReturnDate of both rows, while AvailableCopies rises by 1 only (from 0 to 1, of 2)
  and one log entry is written; the fine is the one of the first row.
\<close>

theorem return_book_closes_every_match:
  "main_loop [Choice1 ''B1'' ''Title'' ''Author'' (Some 2),
              Choice2 1 ''U1'' ''Alice'' ''B1'',
              Choice2 2 ''U1'' ''Alice'' ''B1'',
              Choice3 3 ''U1'' ''B1''] ([], [], [])
     = (Running,
        [\<lparr>BookID = ''B1'', Title = ''Title'', Author = ''Author'', TotalCopies = 2, AvailableCopies = 1\<rparr>],
        [\<lparr>UserID = ''U1'', Name = ''Alice'', LoanBookID = ''B1'', IssueDate = 1, ReturnDate = Some 3\<rparr>,
         \<lparr>UserID = ''U1'', Name = ''Alice'', LoanBookID = ''B1'', IssueDate = 2, ReturnDate = Some 3\<rparr>],
        [\<lparr>LogUserID = ''U1'', LogBookID = ''B1'', Action = ''Issued'', Date = 1\<rparr>,
         \<lparr>LogUserID = ''U1'', LogBookID = ''B1'', Action = ''Issued'', Date = 2\<rparr>,
         \<lparr>LogUserID = ''U1'', LogBookID = ''B1'', Action = ''Returned'', Date = 3\<rparr>])"
  by (simp add: add_book_def issue_book_def return_book_def iloc0_def timedelta_days_def
      NS_PER_DAY_def FINE_PER_DAY_def)

subsection \<open>The copies invariant\<close>

lemma outstanding_append:
  "outstanding (users @ [l]) bid
     = outstanding users bid + (if LoanBookID l = bid \<and> ReturnDate l = None then 1 else 0)"
  by (simp add: outstanding_def)

lemma outstanding_close_same:
  "outstanding (map (\<lambda>u. if matches user_id book_id u then u\<lparr>ReturnDate := Some today\<rparr> else u) users) book_id
     + length (filter (matches user_id book_id) users)
   = outstanding users book_id"
  by (induction users) (auto simp: outstanding_def matches_def)

lemma outstanding_close_other:
  "bid \<noteq> book_id \<Longrightarrow>
   outstanding (map (\<lambda>u. if matches user_id book_id u then u\<lparr>ReturnDate := Some today\<rparr> else u) users) bid
   = outstanding users bid"
  by (induction users) (auto simp: outstanding_def matches_def)

lemma outstanding_zero:
  "list_all (\<lambda>u. ReturnDate u = None \<longrightarrow> LoanBookID u \<in> S) users \<Longrightarrow> bid \<notin> S
     \<Longrightarrow> outstanding users bid = 0"
  by (induction users) (auto simp: outstanding_def)

lemma map_BookID_adjust:
  "map BookID (map (\<lambda>b. if P b then b\<lparr>AvailableCopies := f b\<rparr> else b) books) = map BookID books"
  by (induction books) simp_all

lemma distinct_BookID_eq:
  "distinct (map BookID books) \<Longrightarrow> a \<in> set books \<Longrightarrow> b \<in> set books \<Longrightarrow> BookID a = BookID b
     \<Longrightarrow> a = b"
  by (meson distinct_map inj_onD)

lemma book_of_SomeD:
  "book_of books book_id = Some b \<Longrightarrow> b \<in> set books \<and> BookID b = book_id"
  by (auto simp: book_of_def find_Some_iff)

lemma add_book_preserves:
  assumes wf: "well_formed books users" and inv: "copies_invariant books users"
  shows "well_formed (snd (add_book books book_id title author copies)) users
     \<and> copies_invariant (snd (add_book books book_id title author copies)) users"
proof (cases "fst (add_book books book_id title author copies) = BookAdded")
  case False
  then have "snd (add_book books book_id title author copies) = books"
    by (auto simp: add_book_def split: if_splits option.splits)
  with wf inv show ?thesis by simp
next
  case True
  then obtain c where new: "book_id \<notin> set (map BookID books)" and c: "copies = Some c" "1 \<le> c"
    by (auto simp: add_book_def split: if_splits option.splits)
  then have s: "snd (add_book books book_id title author copies)
      = books @ [\<lparr>BookID = book_id, Title = title, Author = author,
                  TotalCopies = c, AvailableCopies = c\<rparr>]"
    by (simp add: add_book_def)
  have z: "outstanding users book_id = 0"
    using wf new by (auto simp: well_formed_def intro: outstanding_zero)
  have "well_formed (books @ [\<lparr>BookID = book_id, Title = title, Author = author,
                  TotalCopies = c, AvailableCopies = c\<rparr>]) users"
    using wf new by (auto simp: well_formed_def list_all_iff)
  moreover have "copies_invariant (books @ [\<lparr>BookID = book_id, Title = title, Author = author,
                  TotalCopies = c, AvailableCopies = c\<rparr>]) users"
    using inv z c by (simp add: copies_invariant_def)
  ultimately show ?thesis by (simp add: s)
qed

lemma issue_book_result:
  "snd (issue_book today books users logs user_id name book_id) =
     (case book_of books book_id of
        None \<Rightarrow> (books, users, logs)
      | Some b \<Rightarrow>
          if AvailableCopies b \<le> 0 then (books, users, logs)
          else (map (\<lambda>b. if BookID b = book_id then b\<lparr>AvailableCopies := AvailableCopies b - 1\<rparr> else b) books,
                users @ [\<lparr>UserID = user_id, Name = name, LoanBookID = book_id,
                          IssueDate = today, ReturnDate = None\<rparr>],
                logs @ [\<lparr>LogUserID = user_id, LogBookID = book_id, Action = ''Issued'', Date = today\<rparr>]))"
proof (cases "book_of books book_id")
  case None
  then have "book_id \<notin> set (map BookID books)" by (simp add: book_of_None)
  with None show ?thesis by (simp add: issue_book_def)
next
  case (Some b)
  then have "iloc0 (filter (\<lambda>b. BookID b = book_id) books) = Some b"
    by (simp add: iloc0_filter_find book_of_def)
  with Some show ?thesis using book_of_Some_mem[OF Some] by (simp add: issue_book_def Let_def)
qed

lemma issue_book_preserves:
  assumes wf: "well_formed books users" and inv: "copies_invariant books users"
  shows "well_formed (fst (snd (issue_book today books users logs user_id name book_id)))
           (fst (snd (snd (issue_book today books users logs user_id name book_id))))
     \<and> copies_invariant (fst (snd (issue_book today books users logs user_id name book_id)))
           (fst (snd (snd (issue_book today books users logs user_id name book_id))))"
proof (cases "\<exists>b. book_of books book_id = Some b \<and> 0 < AvailableCopies b")
  case False
  then have "snd (issue_book today books users logs user_id name book_id) = (books, users, logs)"
    by (auto simp: issue_book_result split: option.splits)
  with wf inv show ?thesis by simp
next
  case True
  then obtain b where b: "book_of books book_id = Some b" and pos: "0 < AvailableCopies b" by blast
  let ?books' = "map (\<lambda>b. if BookID b = book_id then b\<lparr>AvailableCopies := AvailableCopies b - 1\<rparr> else b) books"
  let ?users' = "users @ [\<lparr>UserID = user_id, Name = name, LoanBookID = book_id,
                          IssueDate = today, ReturnDate = None\<rparr>]"
  from b pos have s: "snd (issue_book today books users logs user_id name book_id)
      = (?books', ?users',
         logs @ [\<lparr>LogUserID = user_id, LogBookID = book_id, Action = ''Issued'', Date = today\<rparr>])"
    by (simp add: issue_book_result)
  have ids: "map BookID ?books' = map BookID books" by (rule map_BookID_adjust)
  have d: "distinct (map BookID books)" using wf by (simp add: well_formed_def)
  have bmem: "b \<in> set books" "BookID b = book_id" using book_of_SomeD[OF b] by simp_all
  have w: "well_formed ?books' ?users'"
    using wf bmem unfolding well_formed_def ids by auto
  have "copies_invariant ?books' ?users'"
    unfolding copies_invariant_def list_all_iff
  proof
    fix x assume "x \<in> set ?books'"
    then obtain r where r: "r \<in> set books"
      and x: "x = (if BookID r = book_id then r\<lparr>AvailableCopies := AvailableCopies r - 1\<rparr> else r)"
      by auto
    from r inv have ir: "AvailableCopies r = TotalCopies r - int (outstanding users (BookID r))"
        "int (outstanding users (BookID r)) \<le> TotalCopies r"
      by (simp_all add: copies_invariant_def list_all_iff)
    show "AvailableCopies x = TotalCopies x - int (outstanding ?users' (BookID x))
          \<and> int (outstanding ?users' (BookID x)) \<le> TotalCopies x"
    proof (cases "BookID r = book_id")
      case True
      with r bmem d have "r = b" by (auto intro: distinct_BookID_eq)
      with pos ir True x show ?thesis by (simp add: outstanding_append)
    next
      case False
      with ir x show ?thesis by (simp add: outstanding_append)
    qed
  qed
  with w show ?thesis by (simp add: s)
qed


lemma find_Some_filter_length:
  "find P xs = Some x \<Longrightarrow> 1 \<le> length (filter P xs)"
  by (induction xs) (auto split: if_splits)

lemma return_book_preserves:
  assumes wf: "well_formed books users" and inv: "copies_invariant books users"
    and one: "length (filter (matches user_id book_id) users) \<le> 1"
  shows "well_formed (fst (snd (return_book today books users logs user_id book_id)))
           (fst (snd (snd (return_book today books users logs user_id book_id))))
     \<and> copies_invariant (fst (snd (return_book today books users logs user_id book_id)))
           (fst (snd (snd (return_book today books users logs user_id book_id))))"
proof (cases "find (matches user_id book_id) users")
  case None
  then show ?thesis using wf inv by (simp add: return_book_NoActiveLoan)
next
  case (Some l)
  let ?books' = "map (\<lambda>b. if BookID b = book_id then b\<lparr>AvailableCopies := AvailableCopies b + 1\<rparr> else b) books"
  let ?users' = "map (\<lambda>u. if matches user_id book_id u then u\<lparr>ReturnDate := Some today\<rparr> else u) users"
  have s: "fst (snd (return_book today books users logs user_id book_id)) = ?books'"
      "fst (snd (snd (return_book today books users logs user_id book_id))) = ?users'"
    by (simp_all add: return_book_Returned[OF Some])
  have k: "length (filter (matches user_id book_id) users) = 1"
    using one find_Some_filter_length[OF Some] by simp
  have same: "outstanding ?users' book_id + 1 = outstanding users book_id"
    using outstanding_close_same[of user_id book_id today users] k by simp
  have ids: "map BookID ?books' = map BookID books" by (rule map_BookID_adjust)
  have w: "well_formed ?books' ?users'"
    using wf unfolding well_formed_def ids by (auto simp: list_all_iff)
  have "copies_invariant ?books' ?users'"
    unfolding copies_invariant_def list_all_iff
  proof
    fix x assume "x \<in> set ?books'"
    then obtain r where r: "r \<in> set books"
      and x: "x = (if BookID r = book_id then r\<lparr>AvailableCopies := AvailableCopies r + 1\<rparr> else r)"
      by auto
    from r inv have ir: "AvailableCopies r = TotalCopies r - int (outstanding users (BookID r))"
        "int (outstanding users (BookID r)) \<le> TotalCopies r"
      by (simp_all add: copies_invariant_def list_all_iff)
    show "AvailableCopies x = TotalCopies x - int (outstanding ?users' (BookID x))
          \<and> int (outstanding ?users' (BookID x)) \<le> TotalCopies x"
    proof (cases "BookID r = book_id")
      case True
      with ir x same show ?thesis by simp
    next
      case False
      with ir x show ?thesis by (simp add: outstanding_close_other)
    qed
  qed
  with w show ?thesis by (simp add: s)
qed

text \<open>
  Claim C3, amended. From a state where BookIDs are unique, every outstanding Loan has the
  BookID of a row of Books, and every row of Books satisfies
  \<open>AvailableCopies = TotalCopies - (number of outstanding Loans of its BookID)\<close> with that
  number at most TotalCopies: the same three properties hold after add-book, after issue,
  and after a return for which at most one Loan row matches (userId, bookId, ReturnDate
  absent).
\<close>

theorem copies_invariant_preserved:
  assumes "well_formed books users" and "copies_invariant books users"
  shows "(well_formed (snd (add_book books book_id title author copies)) users
          \<and> copies_invariant (snd (add_book books book_id title author copies)) users)
     \<and> (well_formed (fst (snd (issue_book today books users logs user_id name book_id)))
           (fst (snd (snd (issue_book today books users logs user_id name book_id))))
         \<and> copies_invariant (fst (snd (issue_book today books users logs user_id name book_id)))
           (fst (snd (snd (issue_book today books users logs user_id name book_id)))))
     \<and> (length (filter (matches user_id book_id) users) \<le> 1 \<longrightarrow>
         well_formed (fst (snd (return_book today books users logs user_id book_id)))
           (fst (snd (snd (return_book today books users logs user_id book_id))))
         \<and> copies_invariant (fst (snd (return_book today books users logs user_id book_id)))
           (fst (snd (snd (return_book today books users logs user_id book_id)))))"
  using add_book_preserves[OF assms] issue_book_preserves[OF assms] return_book_preserves[OF assms]
  by blast

text \<open>
  Claim C3 as stated, from any state satisfying the invariant, fails: add-book of an id that
  an outstanding Loan already carries; issue on a Books table with two rows of one BookID
  (only the first is tested, both are decremented); return with two matching Loan rows
  (both are closed, one copy comes back). Each time the invariant holds before and not after.
\<close>

theorem copies_invariant_counterexample:
  "(copies_invariant []
      [\<lparr>UserID = ''U1'', Name = ''Alice'', LoanBookID = ''B1'', IssueDate = 1, ReturnDate = None\<rparr>]
    \<and> \<not> copies_invariant (snd (add_book [] ''B1'' ''T'' ''A'' (Some 1)))
      [\<lparr>UserID = ''U1'', Name = ''Alice'', LoanBookID = ''B1'', IssueDate = 1, ReturnDate = None\<rparr>])
   \<and> (copies_invariant
      [\<lparr>BookID = ''B1'', Title = ''T'', Author = ''A'', TotalCopies = 2, AvailableCopies = 1\<rparr>,
       \<lparr>BookID = ''B1'', Title = ''T'', Author = ''A'', TotalCopies = 1, AvailableCopies = 0\<rparr>]
      [\<lparr>UserID = ''U1'', Name = ''Alice'', LoanBookID = ''B1'', IssueDate = 1, ReturnDate = None\<rparr>]
    \<and> \<not> (case issue_book 2
      [\<lparr>BookID = ''B1'', Title = ''T'', Author = ''A'', TotalCopies = 2, AvailableCopies = 1\<rparr>,
       \<lparr>BookID = ''B1'', Title = ''T'', Author = ''A'', TotalCopies = 1, AvailableCopies = 0\<rparr>]
      [\<lparr>UserID = ''U1'', Name = ''Alice'', LoanBookID = ''B1'', IssueDate = 1, ReturnDate = None\<rparr>]
      [] ''U2'' ''Bob'' ''B1'' of (oc, books', users', logs') \<Rightarrow> copies_invariant books' users'))
   \<and> (copies_invariant
      [\<lparr>BookID = ''B1'', Title = ''T'', Author = ''A'', TotalCopies = 2, AvailableCopies = 0\<rparr>]
      [\<lparr>UserID = ''U1'', Name = ''Alice'', LoanBookID = ''B1'', IssueDate = 1, ReturnDate = None\<rparr>,
       \<lparr>UserID = ''U1'', Name = ''Alice'', LoanBookID = ''B1'', IssueDate = 2, ReturnDate = None\<rparr>]
    \<and> \<not> (case return_book 3
      [\<lparr>BookID = ''B1'', Title = ''T'', Author = ''A'', TotalCopies = 2, AvailableCopies = 0\<rparr>]
      [\<lparr>UserID = ''U1'', Name = ''Alice'', LoanBookID = ''B1'', IssueDate = 1, ReturnDate = None\<rparr>,
       \<lparr>UserID = ''U1'', Name = ''Alice'', LoanBookID = ''B1'', IssueDate = 2, ReturnDate = None\<rparr>]
      [] ''U1'' ''B1'' of (oc, books', users', logs') \<Rightarrow> copies_invariant books' users'))"
  by (simp add: copies_invariant_def outstanding_def add_book_def issue_book_def return_book_def
      iloc0_def)

text \<open>
  The amended C3 on a state with one book and one outstanding loan: a second book is added,
  the book is issued once more, the loan is returned.
\<close>

theorem copies_invariant_preserved_witness:
  "well_formed
      [\<lparr>BookID = ''B1'', Title = ''T'', Author = ''A'', TotalCopies = 2, AvailableCopies = 1\<rparr>]
      [\<lparr>UserID = ''U1'', Name = ''Alice'', LoanBookID = ''B1'', IssueDate = 1, ReturnDate = None\<rparr>]
   \<and> copies_invariant
      [\<lparr>BookID = ''B1'', Title = ''T'', Author = ''A'', TotalCopies = 2, AvailableCopies = 1\<rparr>]
      [\<lparr>UserID = ''U1'', Name = ''Alice'', LoanBookID = ''B1'', IssueDate = 1, ReturnDate = None\<rparr>]
   \<and> copies_invariant
      (snd (add_book
        [\<lparr>BookID = ''B1'', Title = ''T'', Author = ''A'', TotalCopies = 2, AvailableCopies = 1\<rparr>]
        ''B2'' ''S'' ''C'' (Some 3)))
      [\<lparr>UserID = ''U1'', Name = ''Alice'', LoanBookID = ''B1'', IssueDate = 1, ReturnDate = None\<rparr>]
   \<and> copies_invariant
      (fst (snd (issue_book 2
        [\<lparr>BookID = ''B1'', Title = ''T'', Author = ''A'', TotalCopies = 2, AvailableCopies = 1\<rparr>]
        [\<lparr>UserID = ''U1'', Name = ''Alice'', LoanBookID = ''B1'', IssueDate = 1, ReturnDate = None\<rparr>]
        [] ''U2'' ''Bob'' ''B1'')))
      (fst (snd (snd (issue_book 2
        [\<lparr>BookID = ''B1'', Title = ''T'', Author = ''A'', TotalCopies = 2, AvailableCopies = 1\<rparr>]
        [\<lparr>UserID = ''U1'', Name = ''Alice'', LoanBookID = ''B1'', IssueDate = 1, ReturnDate = None\<rparr>]
        [] ''U2'' ''Bob'' ''B1''))))
   \<and> copies_invariant
      (fst (snd (return_book 2
        [\<lparr>BookID = ''B1'', Title = ''T'', Author = ''A'', TotalCopies = 2, AvailableCopies = 1\<rparr>]
        [\<lparr>UserID = ''U1'', Name = ''Alice'', LoanBookID = ''B1'', IssueDate = 1, ReturnDate = None\<rparr>]
        [] ''U1'' ''B1'')))
      (fst (snd (snd (return_book 2
        [\<lparr>BookID = ''B1'', Title = ''T'', Author = ''A'', TotalCopies = 2, AvailableCopies = 1\<rparr>]
        [\<lparr>UserID = ''U1'', Name = ''Alice'', LoanBookID = ''B1'', IssueDate = 1, ReturnDate = None\<rparr>]
        [] ''U1'' ''B1''))))"
proof -
  let ?b = "[\<lparr>BookID = ''B1'', Title = ''T'', Author = ''A'', TotalCopies = 2, AvailableCopies = 1\<rparr>]"
  let ?u = "[\<lparr>UserID = ''U1'', Name = ''Alice'', LoanBookID = ''B1'', IssueDate = 1, ReturnDate = None\<rparr>]"
  have w: "well_formed ?b ?u" by (simp add: well_formed_def)
  have i: "copies_invariant ?b ?u" by (simp add: copies_invariant_def outstanding_def)
  have o: "length (filter (matches ''U1'' ''B1'') ?u) \<le> 1" by simp
  from w i o copies_invariant_preserved[OF w i, where book_id = "''B2''" and title = "''S''"
      and author = "''C''" and copies = "Some 3"]
    copies_invariant_preserved[OF w i, where today = 2 and logs = "[]" and user_id = "''U2''"
      and name = "''Bob''" and book_id = "''B1''"]
    copies_invariant_preserved[OF w i, where today = 2 and logs = "[]" and user_id = "''U1''"
      and book_id = "''B1''"]
  show ?thesis by blast
qed

subsection \<open>The top-borrowed report\<close>

lemma count_list_map_filter:
  "count_list (map f xs) y = length (filter (\<lambda>x. f x = y) xs)"
  by (induction xs) simp_all

lemma value_counts_props:
  "distinct (map fst (value_counts xs))"
  "set (map fst (value_counts xs)) = set xs"
  "length (value_counts xs) = card (set xs)"
  "p \<in> set (value_counts xs) \<Longrightarrow> snd p = count_list xs (fst p)"
proof -
  let ?U = "rev (remdups (rev xs))"
  let ?vc0 = "map (\<lambda>x. (x, count_list xs x)) ?U"
  have f: "map fst ?vc0 = ?U" by (simp add: comp_def)
  have d0: "distinct (map fst ?vc0)" unfolding f by simp
  from d0 show "distinct (map fst (value_counts xs))"
    unfolding value_counts_def by (simp only: distinct_map distinct_sort set_sort)
  show "set (map fst (value_counts xs)) = set xs"
    by (simp add: value_counts_def image_image)
  show "length (value_counts xs) = card (set xs)"
    by (simp add: value_counts_def length_remdups_card_conv)
  show "p \<in> set (value_counts xs) \<Longrightarrow> snd p = count_list xs (fst p)"
    by (auto simp: value_counts_def)
qed

lemma nlargest_props:
  assumes d: "distinct (map fst s)"
  shows "distinct (map fst (nlargest n s))"
    and "length (nlargest n s) = min n (length s)"
    and "set (nlargest n s) \<subseteq> set s"
    and "p \<in> set (nlargest n s) \<Longrightarrow> q \<in> set s \<Longrightarrow> q \<notin> set (nlargest n s) \<Longrightarrow> snd q \<le> snd p"
proof -
  let ?k = "\<lambda>p :: string \<times> nat. - int (snd p)"
  let ?S = "sort_key ?k s"
  from d have dS: "distinct (map fst ?S)"
    by (simp only: distinct_map distinct_sort set_sort)
  then show "distinct (map fst (nlargest n s))"
    by (simp add: nlargest_def take_map[symmetric] del: take_map)
  show "length (nlargest n s) = min n (length s)"
    by (simp add: nlargest_def min.commute)
  show sub: "set (nlargest n s) \<subseteq> set s"
    using set_take_subset[of n ?S] by (simp add: nlargest_def)
  assume p: "p \<in> set (nlargest n s)" and q: "q \<in> set s" and nq: "q \<notin> set (nlargest n s)"
  have "sorted (map ?k ?S)" by (rule sorted_sort_key)
  then have "sorted (map ?k (take n ?S) @ map ?k (drop n ?S))"
    by (simp only: map_append[symmetric] append_take_drop_id)
  then have "\<forall>x \<in> set (map ?k (take n ?S)). \<forall>y \<in> set (map ?k (drop n ?S)). x \<le> y"
    unfolding sorted_append by blast
  then have ord: "\<forall>a \<in> set (take n ?S). \<forall>b \<in> set (drop n ?S). ?k a \<le> ?k b"
    by simp
  from q have "q \<in> set (take n ?S @ drop n ?S)" by simp
  with nq have "q \<in> set (drop n ?S)" by (simp add: nlargest_def del: append_take_drop_id)
  with ord p show "snd q \<le> snd p" by (auto simp: nlargest_def)
qed


lemma book_titles_filter:
  "map snd (filter (\<lambda>p. fst p = key) (map (\<lambda>b. (BookID b, Title b)) books))
     = map Title (filter (\<lambda>b. BookID b = key) books)"
  by (induction books) simp_all

lemma series_get_missing:
  "book_of books key = None \<Longrightarrow>
     series_get (map (\<lambda>b. (BookID b, Title b)) books) key dflt = Scalar dflt"
proof -
  assume "book_of books key = None"
  then have "filter (\<lambda>b. BookID b = key) books = []"
    by (simp add: book_of_def find_None_iff filter_empty_conv)
  then show ?thesis by (simp add: series_get_def book_titles_filter)
qed

lemma series_get_unique:
  "filter (\<lambda>b. BookID b = key) books = [b] \<Longrightarrow>
     series_get (map (\<lambda>b. (BookID b, Title b)) books) key dflt = Scalar (Title b)"
  by (simp add: series_get_def book_titles_filter)

text \<open>
  Claim C8. On a non-empty Loans table the top-borrowed report counts every Loan row,
  returned or not, under its BookID; it selects the BookIDs with the highest counts, five of
  them (all of them when fewer than five BookIDs occur), each once: no BookID left out has a
  higher count than a selected one. Each selected BookID is labelled with the Title of the
  row of Books holding that BookID, and with the BookID itself when Books has no such row.
\<close>

theorem visualize_top_books_spec:
  assumes "users \<noteq> []"
  shows "\<exists>ids labels counts.
     visualize_top_books users books = Some (ids, labels, counts)
     \<and> length ids = min 5 (card (LoanBookID ` set users))
     \<and> length labels = length ids \<and> length counts = length ids
     \<and> distinct ids \<and> set ids \<subseteq> LoanBookID ` set users
     \<and> (\<forall>i < length ids. counts ! i = length (filter (\<lambda>u. LoanBookID u = ids ! i) users))
     \<and> (\<forall>bid \<in> LoanBookID ` set users - set ids. \<forall>i < length ids.
           length (filter (\<lambda>u. LoanBookID u = bid) users) \<le> counts ! i)
     \<and> (\<forall>i < length ids.
           (book_of books (ids ! i) = None \<longrightarrow> labels ! i = Scalar (ids ! i))
           \<and> (\<forall>b. filter (\<lambda>b. BookID b = ids ! i) books = [b] \<longrightarrow> labels ! i = Scalar (Title b)))"
proof -
  let ?xs = "map LoanBookID users"
  let ?vc = "value_counts ?xs"
  let ?T = "nlargest 5 ?vc"
  let ?titles = "map (\<lambda>b. (BookID b, Title b)) books"
  let ?ids = "map fst ?T"
  let ?labels = "map (\<lambda>bid. series_get ?titles bid bid) ?ids"
  let ?counts = "map snd ?T"
  have d: "distinct (map fst ?vc)" by (rule value_counts_props)
  have sv: "set (map fst ?vc) = LoanBookID ` set users"
    using value_counts_props(2)[of ?xs] by simp
  have cnt: "\<And>p. p \<in> set ?vc \<Longrightarrow> snd p = length (filter (\<lambda>u. LoanBookID u = fst p) users)"
    using value_counts_props(4)[of _ ?xs] by (simp add: count_list_map_filter)
  have sub: "set ?T \<subseteq> set ?vc" by (rule nlargest_props(3)[OF d])
  have v: "visualize_top_books users books = Some (?ids, ?labels, ?counts)"
    using assms by (simp add: visualize_top_books_def Let_def)
  have len: "length ?ids = min 5 (card (LoanBookID ` set users))"
    using nlargest_props(2)[OF d, of 5] value_counts_props(3)[of ?xs] by simp
  have dist: "distinct ?ids" by (rule nlargest_props(1)[OF d])
  have ids: "set ?ids \<subseteq> LoanBookID ` set users"
    using sub sv by auto
  have c: "\<forall>i < length ?ids. ?counts ! i = length (filter (\<lambda>u. LoanBookID u = ?ids ! i) users)"
  proof (intro allI impI)
    fix i assume "i < length ?ids"
    then have i: "i < length ?T" by simp
    then have "?T ! i \<in> set ?vc" using sub nth_mem by blast
    from cnt[OF this] i show "?counts ! i = length (filter (\<lambda>u. LoanBookID u = ?ids ! i) users)"
      by simp
  qed
  have top: "\<forall>bid \<in> LoanBookID ` set users - set ?ids. \<forall>i < length ?ids.
           length (filter (\<lambda>u. LoanBookID u = bid) users) \<le> ?counts ! i"
  proof (intro ballI allI impI)
    fix bid i
    assume bid: "bid \<in> LoanBookID ` set users - set ?ids" and "i < length ?ids"
    then have i: "i < length ?T" by simp
    then have p: "?T ! i \<in> set ?T" by (rule nth_mem)
    from bid have "bid \<in> set (map fst ?vc)" unfolding sv by simp
    then have "bid \<in> fst ` set ?vc" by simp
    then obtain q where q: "q \<in> set ?vc" "fst q = bid" by blast
    with bid have "q \<notin> set ?T" by auto
    from nlargest_props(4)[OF d p q(1) this] have "snd q \<le> snd (?T ! i)" .
    with cnt[OF q(1)] q(2) i
    show "length (filter (\<lambda>u. LoanBookID u = bid) users) \<le> ?counts ! i" by simp
  qed
  have lab: "\<forall>i < length ?ids.
           (book_of books (?ids ! i) = None \<longrightarrow> ?labels ! i = Scalar (?ids ! i))
           \<and> (\<forall>b. filter (\<lambda>b. BookID b = ?ids ! i) books = [b] \<longrightarrow> ?labels ! i = Scalar (Title b))"
    by (simp add: series_get_missing series_get_unique)
  show ?thesis
    apply (rule exI[of _ ?ids])
    apply (rule exI[of _ ?labels])
    apply (rule exI[of _ ?counts])
    using v len dist ids c top lab by simp
qed


text \<open>
  C8 on seven loans of six books, two of which are in Books: B6 is left out, B2 with two
  loans comes first, and the books missing from Books keep their BookID as label.
\<close>

theorem visualize_top_books_spec_witness:
  "(let users =
      [\<lparr>UserID = ''U1'', Name = ''Alice'', LoanBookID = ''B1'', IssueDate = 1, ReturnDate = Some 9\<rparr>,
       \<lparr>UserID = ''U1'', Name = ''Alice'', LoanBookID = ''B2'', IssueDate = 2, ReturnDate = Some 9\<rparr>,
       \<lparr>UserID = ''U2'', Name = ''Bob'', LoanBookID = ''B2'', IssueDate = 3, ReturnDate = None\<rparr>,
       \<lparr>UserID = ''U2'', Name = ''Bob'', LoanBookID = ''B3'', IssueDate = 4, ReturnDate = None\<rparr>,
       \<lparr>UserID = ''U3'', Name = ''Carl'', LoanBookID = ''B4'', IssueDate = 5, ReturnDate = None\<rparr>,
       \<lparr>UserID = ''U3'', Name = ''Carl'', LoanBookID = ''B5'', IssueDate = 6, ReturnDate = None\<rparr>,
       \<lparr>UserID = ''U3'', Name = ''Carl'', LoanBookID = ''B6'', IssueDate = 7, ReturnDate = None\<rparr>];
     books =
      [\<lparr>BookID = ''B1'', Title = ''Dune'', Author = ''Herbert'', TotalCopies = 1, AvailableCopies = 1\<rparr>,
       \<lparr>BookID = ''B3'', Title = ''Emma'', Author = ''Austen'', TotalCopies = 1, AvailableCopies = 0\<rparr>]
    in users \<noteq> []
       \<and> visualize_top_books users books
           = Some ([''B2'', ''B1'', ''B3'', ''B4'', ''B5''],
                   [Scalar ''B2'', Scalar ''Dune'', Scalar ''Emma'', Scalar ''B4'', Scalar ''B5''],
                   [2, 1, 1, 1, 1])
       \<and> (\<exists>ids labels counts.
             visualize_top_books users books = Some (ids, labels, counts)
             \<and> length ids = min 5 (card (LoanBookID ` set users))
             \<and> distinct ids
             \<and> (\<forall>i < length ids. counts ! i = length (filter (\<lambda>u. LoanBookID u = ids ! i) users))
             \<and> (\<forall>bid \<in> LoanBookID ` set users - set ids. \<forall>i < length ids.
                   length (filter (\<lambda>u. LoanBookID u = bid) users) \<le> counts ! i)))"
proof -
  let ?users =
     "[\<lparr>UserID = ''U1'', Name = ''Alice'', LoanBookID = ''B1'', IssueDate = 1, ReturnDate = Some 9\<rparr>,
       \<lparr>UserID = ''U1'', Name = ''Alice'', LoanBookID = ''B2'', IssueDate = 2, ReturnDate = Some 9\<rparr>,
       \<lparr>UserID = ''U2'', Name = ''Bob'', LoanBookID = ''B2'', IssueDate = 3, ReturnDate = None\<rparr>,
       \<lparr>UserID = ''U2'', Name = ''Bob'', LoanBookID = ''B3'', IssueDate = 4, ReturnDate = None\<rparr>,
       \<lparr>UserID = ''U3'', Name = ''Carl'', LoanBookID = ''B4'', IssueDate = 5, ReturnDate = None\<rparr>,
       \<lparr>UserID = ''U3'', Name = ''Carl'', LoanBookID = ''B5'', IssueDate = 6, ReturnDate = None\<rparr>,
       \<lparr>UserID = ''U3'', Name = ''Carl'', LoanBookID = ''B6'', IssueDate = 7, ReturnDate = None\<rparr>]"
  let ?books =
     "[\<lparr>BookID = ''B1'', Title = ''Dune'', Author = ''Herbert'', TotalCopies = 1, AvailableCopies = 1\<rparr>,
       \<lparr>BookID = ''B3'', Title = ''Emma'', Author = ''Austen'', TotalCopies = 1, AvailableCopies = 0\<rparr>]"
  have ne: "?users \<noteq> []" by simp
  have ev: "visualize_top_books ?users ?books
           = Some ([''B2'', ''B1'', ''B3'', ''B4'', ''B5''],
                   [Scalar ''B2'', Scalar ''Dune'', Scalar ''Emma'', Scalar ''B4'', Scalar ''B5''],
                   [2, 1, 1, 1, 1])"
    by (simp add: visualize_top_books_def value_counts_def nlargest_def series_get_def)
  from visualize_top_books_spec[OF ne, of ?books]
  have inst: "\<exists>ids labels counts.
             visualize_top_books ?users ?books = Some (ids, labels, counts)
             \<and> length ids = min 5 (card (LoanBookID ` set ?users))
             \<and> distinct ids
             \<and> (\<forall>i < length ids. counts ! i = length (filter (\<lambda>u. LoanBookID u = ids ! i) ?users))
             \<and> (\<forall>bid \<in> LoanBookID ` set ?users - set ids. \<forall>i < length ids.
                   length (filter (\<lambda>u. LoanBookID u = bid) ?users) \<le> counts ! i)"
    by blast
  from ne ev inst show ?thesis unfolding Let_def by (intro conjI)
qed

end
